theory Spec2Isabelle
  imports Complex_Main "HOL-Library.AList" "HOL-Library.Log_Nat"
begin

section \<open>Python floats\<close>

text \<open>
  A Python float is an IEEE 754 double. A finite double is modelled by the real
  number it denotes, and an arithmetic operation on doubles returns the double
  nearest the exact result, ties going to the even mantissa (the default rounding
  mode). The exponent range is not bounded: overflow to infinity, NaN and the reduced
  precision of subnormal numbers are outside the model.

  \<open>ilog2 x\<close> is the binary exponent of a positive \<open>x\<close>, the largest \<open>e\<close> with
  \<open>2^e \<le> x\<close>; \<open>double_of x\<close> rounds \<open>x\<close> to a mantissa of 53 bits.
\<close>

definition ilog2 :: "real \<Rightarrow> int" where
  "ilog2 x = (if 1 \<le> x then bitlen \<lfloor>x\<rfloor> - 1 else - bitlen (\<lceil>1 / x\<rceil> - 1))"

definition pow2 :: "int \<Rightarrow> real" where
  "pow2 e = (if 0 \<le> e then 2 ^ nat e else 1 / 2 ^ nat (- e))"

definition round_even :: "real \<Rightarrow> int" where
  "round_even y =
     (let f = \<lfloor>y\<rfloor>; d = y - real_of_int f
      in if d < 1 / 2 then f else if 1 / 2 < d then f + 1 else if even f then f else f + 1)"

definition double_of :: "real \<Rightarrow> real" where
  "double_of x =
     (if x = 0 then 0
      else let e = ilog2 \<bar>x\<bar> - 52
           in sgn x * real_of_int (round_even (\<bar>x\<bar> / pow2 e)) * pow2 e)"

text \<open>The operators \<^verbatim>\<open>+\<close>, \<^verbatim>\<open>*\<close> and \<^verbatim>\<open>/\<close> on floats, and \<^verbatim>\<open>float(k)\<close> of an integer.\<close>

definition fadd :: "real \<Rightarrow> real \<Rightarrow> real" where
  "fadd a b = double_of (a + b)"

definition fmul :: "real \<Rightarrow> real \<Rightarrow> real" where
  "fmul a b = double_of (a * b)"

definition fdiv :: "real \<Rightarrow> real \<Rightarrow> real" where
  "fdiv a b = double_of (a / b)"

definition py_float :: "int \<Rightarrow> real" where
  "py_float k = double_of (real_of_int k)"

section \<open>The two rounding primitives\<close>

text \<open>\<^verbatim>\<open>int(x)\<close> of Python truncates toward zero.\<close>

definition py_int :: "real \<Rightarrow> int" where
  "py_int x = (if 0 \<le> x then \<lfloor>x\<rfloor> else \<lceil>x\<rceil>)"

text \<open>
  \<^verbatim>\<open>flt(v or 0)\<close>: a missing or \<^verbatim>\<open>None\<close> numeric field reads as zero.
\<close>

definition flt :: "real option \<Rightarrow> real" where
  "flt v = (case v of None \<Rightarrow> 0 | Some x \<Rightarrow> x)"

text \<open>
  \<^verbatim>\<open>
  def round_half(n, decimals=2):
      multiplier = 10 ** decimals
      return float(int(n * multiplier + 0.5)) / multiplier
  \<close>
\<close>

text \<open>
  \<^verbatim>\<open>multiplier\<close> is an integer, converted to a float where it meets one.
\<close>

definition round_half :: "real \<Rightarrow> nat \<Rightarrow> real" where
  "round_half n decimals =
     (let multiplier = (10 :: int) ^ decimals
      in fdiv (py_float (py_int (fadd (fmul n (py_float multiplier)) 0.5)))
           (py_float multiplier))"

text \<open>
  \<^verbatim>\<open>
  def round_half_up(n):
      decimal_part = n - int(n)
      if decimal_part >= 0.5:
          return int(n) + 1
      else:
          return int(n)
  \<close>
\<close>

text \<open>
  The difference \<^verbatim>\<open>n - int(n)\<close> of a double and its integer part is itself a
  double, so the subtraction is written exactly.
\<close>

definition round_half_up :: "real \<Rightarrow> int" where
  "round_half_up n =
     (let decimal_part = n - real_of_int (py_int n)
      in if decimal_part \<ge> 0.5 then py_int n + 1 else py_int n)"

text \<open>
  The two primitives as the specification words them: Half-Up-N scales by \<open>10^n\<close>,
  adds one half, truncates and divides back; Half-Up-Integer compares the fractional
  part left by truncation toward zero with one half.
\<close>

definition truncate_toward_zero :: "real \<Rightarrow> int" where
  "truncate_toward_zero x = (if x < 0 then - \<lfloor>- x\<rfloor> else \<lfloor>x\<rfloor>)"

definition Half_Up_N :: "real \<Rightarrow> nat \<Rightarrow> real" where
  "Half_Up_N x n = real_of_int (truncate_toward_zero (x * 10 ^ n + 1 / 2)) / 10 ^ n"


definition Half_Up_Integer :: "real \<Rightarrow> real" where
  "Half_Up_Integer x =
     (if x - real_of_int (truncate_toward_zero x) \<ge> 1 / 2
      then real_of_int (truncate_toward_zero x) + 1
      else real_of_int (truncate_toward_zero x))"

section \<open>The invoice snapshot\<close>

text \<open>
  A line item of the invoice. The engine reads \<open>item_code\<close>, \<open>amount\<close> and the
  three rates, each of which may be missing or \<^verbatim>\<open>None\<close>, and writes the three
  amounts.
\<close>

record invoice_item =
  item_code :: "string option"
  amount :: "real option"
  cgst_rate :: "real option"
  sgst_rate :: "real option"
  igst_rate :: "real option"
  cgst_amount :: "real option"
  sgst_amount :: "real option"
  igst_amount :: "real option"

text \<open>
  A row of the taxes table. The fields \<^verbatim>\<open>total\<close> and \<^verbatim>\<open>base_total\<close> of the row are
  named \<open>row_total\<close> and \<open>row_base_total\<close> here, the document having a
  \<open>base_total\<close> of its own.
\<close>

record tax_row =
  gst_tax_type :: "string option"
  account_head :: "string option"
  tax_amount :: real
  base_tax_amount :: real
  tax_amount_after_discount_amount :: real
  base_tax_amount_after_discount_amount :: real
  item_wise_tax_detail :: string
  row_total :: real
  row_base_total :: real

record sales_invoice =
  items :: "invoice_item list"
  taxes :: "tax_row list"
  net_total :: "real option"
  base_total :: "real option"
  total_taxes_and_charges :: real
  base_total_taxes_and_charges :: real
  grand_total :: real
  base_grand_total :: real
  rounding_adjustment :: real
  rounded_total :: real
  base_rounded_total :: real
  outstanding_amount :: real

text \<open>
  A breakup dictionary \<^verbatim>\<open>{item_code: [rate, amount]}\<close>. Python dictionaries keep
  insertion order and an assignment to a key already present replaces its value in
  place, which is what \<open>AList.update\<close> does on an association list.
\<close>

type_synonym breakup = "(string option \<times> real \<times> real) list"

text \<open>The only exception the engine can raise: \<^verbatim>\<open>.lower()\<close> called on \<^verbatim>\<open>None\<close>.\<close>

datatype error = AttributeError

section \<open>Strings\<close>

text \<open>\<^verbatim>\<open>str.lower()\<close> on the ASCII letters, and the substring test \<^verbatim>\<open>sub in s\<close>.\<close>

definition lower_char :: "char \<Rightarrow> char" where
  "lower_char c =
     (let n = (of_char c :: nat) in if 65 \<le> n \<and> n \<le> 90 then char_of (n + 32) else c)"

definition lower :: "string \<Rightarrow> string" where
  "lower s = map lower_char s"

fun starts_with :: "string \<Rightarrow> string \<Rightarrow> bool" where
  "starts_with [] s = True"
| "starts_with (p # ps) [] = False"
| "starts_with (p # ps) (c # cs) = (p = c \<and> starts_with ps cs)"

fun contains :: "string \<Rightarrow> string \<Rightarrow> bool" where
  "contains sub [] = (sub = [])"
| "contains sub (c # cs) = (starts_with sub (c # cs) \<or> contains sub cs)"

section \<open>Step 1: the loop over the line items\<close>

text \<open>The six local variables the loop over \<^verbatim>\<open>self.items\<close> updates.\<close>

record tally =
  total_cgst :: real
  total_sgst :: real
  total_igst :: real
  cgst_item_wise :: breakup
  sgst_item_wise :: breakup
  igst_item_wise :: breakup

definition tally_init :: tally where
  "tally_init =
     \<lparr>total_cgst = 0, total_sgst = 0, total_igst = 0,
      cgst_item_wise = [], sgst_item_wise = [], igst_item_wise = []\<rparr>"

text \<open>The body of the loop: the item as it is left, and the variables after it.\<close>

definition item_step :: "invoice_item \<Rightarrow> tally \<Rightarrow> invoice_item \<times> tally" where
  "item_step item t =
     (let amt = flt (amount item);
          cgst_r = flt (cgst_rate item);
          sgst_r = flt (sgst_rate item);
          igst_r = flt (igst_rate item);
          cgst_a = round_half (fdiv (fmul amt cgst_r) 100) 2;
          sgst_a = round_half (fdiv (fmul amt sgst_r) 100) 2;
          igst_a = round_half (fdiv (fmul amt igst_r) 100) 2;
          item' = item\<lparr>cgst_amount := Some cgst_a, sgst_amount := Some sgst_a,
                        igst_amount := Some igst_a\<rparr>;
          t1 = (if cgst_r > 0
                then t\<lparr>cgst_item_wise :=
                       AList.update (item_code item) (cgst_r, cgst_a) (cgst_item_wise t)\<rparr>
                else t);
          t2 = (if sgst_r > 0
                then t1\<lparr>sgst_item_wise :=
                        AList.update (item_code item) (sgst_r, sgst_a) (sgst_item_wise t1)\<rparr>
                else t1);
          t3 = (if igst_r > 0
                then t2\<lparr>igst_item_wise :=
                        AList.update (item_code item) (igst_r, igst_a) (igst_item_wise t2)\<rparr>
                else t2)
      in (item',
          t3\<lparr>total_cgst := fadd (total_cgst t3) cgst_a,
             total_sgst := fadd (total_sgst t3) sgst_a,
             total_igst := fadd (total_igst t3) igst_a\<rparr>))"

fun item_loop :: "invoice_item list \<Rightarrow> tally \<Rightarrow> invoice_item list \<times> tally" where
  "item_loop [] t = ([], t)"
| "item_loop (item # rest) t =
     (case item_step item t of
        (item', t') \<Rightarrow>
          (case item_loop rest t' of (rest', t'') \<Rightarrow> (item' # rest', t'')))"

section \<open>Step 3: the loop over the tax rows\<close>

text \<open>
  \<^verbatim>\<open>(tax.get('gst_tax_type', "") or tax.get("account_head", "")).lower()\<close>: the type
  tag when it is a non-empty string, the account head otherwise; \<^verbatim>\<open>.lower()\<close> on
  an account head that is \<^verbatim>\<open>None\<close> raises.
\<close>

definition gst_tax_type_of :: "tax_row \<Rightarrow> error + string" where
  "gst_tax_type_of tax =
     (case (case gst_tax_type tax of
              Some s \<Rightarrow> if s \<noteq> [] then Some s else account_head tax
            | None \<Rightarrow> account_head tax) of
        None \<Rightarrow> Inl AttributeError
      | Some s \<Rightarrow> Inr (lower s))"

text \<open>
  \<^verbatim>\<open>json.dumps\<close> belongs to the Python library; the engine is parametric in it.
\<close>

definition set_row_amounts :: "real \<Rightarrow> string \<Rightarrow> tax_row \<Rightarrow> tax_row" where
  "set_row_amounts x detail tax =
     tax\<lparr>tax_amount := x, base_tax_amount := x,
         tax_amount_after_discount_amount := x,
         base_tax_amount_after_discount_amount := x,
         item_wise_tax_detail := detail\<rparr>"

definition update_tax_row :: "(breakup \<Rightarrow> string) \<Rightarrow> tally \<Rightarrow> tax_row \<Rightarrow> error + tax_row" where
  "update_tax_row dumps t tax =
     (case gst_tax_type_of tax of
        Inl e \<Rightarrow> Inl e
      | Inr ty \<Rightarrow>
          Inr (if contains ''cgst'' ty
               then set_row_amounts (total_cgst t) (dumps (cgst_item_wise t)) tax
               else if contains ''sgst'' ty \<or> contains ''utgst'' ty
               then set_row_amounts (total_sgst t) (dumps (sgst_item_wise t)) tax
               else if contains ''igst'' ty
               then set_row_amounts (total_igst t) (dumps (igst_item_wise t)) tax
               else tax))"

fun tax_loop :: "(breakup \<Rightarrow> string) \<Rightarrow> tally \<Rightarrow> tax_row list \<Rightarrow> error + tax_row list" where
  "tax_loop dumps t [] = Inr []"
| "tax_loop dumps t (tax # rest) =
     (case update_tax_row dumps t tax of
        Inl e \<Rightarrow> Inl e
      | Inr tax' \<Rightarrow>
          (case tax_loop dumps t rest of
             Inl e \<Rightarrow> Inl e
           | Inr rest' \<Rightarrow> Inr (tax' # rest')))"

section \<open>Step 4: cumulative running totals by row count\<close>

definition set_row_total :: "real \<Rightarrow> tax_row \<Rightarrow> tax_row" where
  "set_row_total x tax = tax\<lparr>row_total := x, row_base_total := x\<rparr>"

fun cumulative_totals :: "real \<Rightarrow> tally \<Rightarrow> tax_row list \<Rightarrow> tax_row list" where
  "cumulative_totals doc_base_total t [tax] =
     [set_row_total (doc_base_total + total_igst t) tax]"
| "cumulative_totals doc_base_total t [tax1, tax2] =
     [set_row_total (doc_base_total + total_cgst t) tax1,
      set_row_total (doc_base_total + total_cgst t + total_sgst t) tax2]"
| "cumulative_totals doc_base_total t txs = txs"

section \<open>The engine\<close>

text \<open>
  Step 2 rounds the base grand total with \<^verbatim>\<open>floor\<close> of \<^verbatim>\<open>frappe.utils\<close>, the
  largest integer not above its argument.

  The additions of steps 2 and 4 and the subtraction of step 2 combine totals that
  the loop over the items has already rounded; they are written as exact operations
  on those values, the rounding of their own results to doubles being left out.
\<close>

definition base_rounded_total_of :: "real \<Rightarrow> int" where
  "base_rounded_total_of bgt =
     (let decimal_part = bgt - real_of_int \<lfloor>bgt\<rfloor>
      in if decimal_part \<ge> 0.5 then \<lfloor>bgt\<rfloor> + 1 else \<lfloor>bgt\<rfloor>)"

definition apply_tally_tax_calculation ::
  "(breakup \<Rightarrow> string) \<Rightarrow> sales_invoice \<Rightarrow> error + sales_invoice" where
  "apply_tally_tax_calculation dumps doc =
     (case item_loop (items doc) tally_init of
        (items', t) \<Rightarrow>
          (let total_tax_amount = total_cgst t + total_sgst t + total_igst t;
               doc_net_total = flt (net_total doc);
               doc_base_total = flt (base_total doc);
               grand_total' = doc_net_total + total_tax_amount;
               base_grand_total' = doc_base_total + total_tax_amount;
               base_rounded_total' = real_of_int (base_rounded_total_of base_grand_total');
               base_rounding_adjustment = base_rounded_total' - base_grand_total'
           in case tax_loop dumps t (taxes doc) of
                Inl e \<Rightarrow> Inl e
              | Inr taxes' \<Rightarrow>
                  Inr (doc\<lparr>items := items',
                           taxes := cumulative_totals doc_base_total t taxes',
                           total_taxes_and_charges := total_tax_amount,
                           base_total_taxes_and_charges := total_tax_amount,
                           grand_total := grand_total',
                           base_grand_total := base_grand_total',
                           rounding_adjustment := base_rounding_adjustment,
                           rounded_total := real_of_int (round_half_up grand_total'),
                           base_rounded_total := base_rounded_total',
                           outstanding_amount := base_rounded_total'\<rparr>)))"

section \<open>Names for the statements\<close>

text \<open>
  The three rounded amounts the loop body computes for one item, and the local
  variables of the engine once the loop over the items has run.
\<close>

definition item_cgst :: "invoice_item \<Rightarrow> real" where
  "item_cgst item = round_half (fdiv (fmul (flt (amount item)) (flt (cgst_rate item))) 100) 2"

definition item_sgst :: "invoice_item \<Rightarrow> real" where
  "item_sgst item = round_half (fdiv (fmul (flt (amount item)) (flt (sgst_rate item))) 100) 2"

definition item_igst :: "invoice_item \<Rightarrow> real" where
  "item_igst item = round_half (fdiv (fmul (flt (amount item)) (flt (igst_rate item))) 100) 2"

definition tally_of :: "sales_invoice \<Rightarrow> tally" where
  "tally_of doc = snd (item_loop (items doc) tally_init)"

definition total_tax_amount_of :: "sales_invoice \<Rightarrow> real" where
  "total_tax_amount_of doc =
     total_cgst (tally_of doc) + total_sgst (tally_of doc) + total_igst (tally_of doc)"

text \<open>
  The branch of the \<^verbatim>\<open>if\<close>/\<^verbatim>\<open>elif\<close> chain of step 3 that a lower-cased classifier
  takes, the first match winning; a row whose classifier cannot be computed has
  no kind.
\<close>

datatype tax_kind = Central | State | Integrated | Unrecognized

definition kind_of :: "string \<Rightarrow> tax_kind" where
  "kind_of ty =
     (if contains ''cgst'' ty then Central
      else if contains ''sgst'' ty \<or> contains ''utgst'' ty then State
      else if contains ''igst'' ty then Integrated
      else Unrecognized)"

definition row_kind :: "tax_row \<Rightarrow> tax_kind option" where
  "row_kind tax = (case gst_tax_type_of tax of Inl e \<Rightarrow> None | Inr ty \<Rightarrow> Some (kind_of ty))"


section \<open>Example invoices\<close>

text \<open>
  A stand-in for \<^verbatim>\<open>json.dumps\<close> that lists the keys of a breakup dictionary, and
  constructors for items, tax rows and invoices as the standard pass leaves them.
\<close>

definition dumps_keys :: "breakup \<Rightarrow> string" where
  "dumps_keys b =
     concat (map (\<lambda>(k, r, a). (case k of None \<Rightarrow> ''null'' | Some s \<Rightarrow> s) @ '';'') b)"

definition item_of ::
  "string \<Rightarrow> real \<Rightarrow> real option \<Rightarrow> real option \<Rightarrow> real option \<Rightarrow> invoice_item" where
  "item_of code amt c s i =
     \<lparr>item_code = Some code, amount = Some amt, cgst_rate = c, sgst_rate = s, igst_rate = i,
      cgst_amount = None, sgst_amount = None, igst_amount = None\<rparr>"

definition annotated :: "real \<Rightarrow> real \<Rightarrow> real \<Rightarrow> invoice_item \<Rightarrow> invoice_item" where
  "annotated c s i item = item\<lparr>cgst_amount := Some c, sgst_amount := Some s, igst_amount := Some i\<rparr>"

definition row_of :: "string \<Rightarrow> real \<Rightarrow> real \<Rightarrow> tax_row" where
  "row_of head amt tot =
     \<lparr>gst_tax_type = None, account_head = Some head, tax_amount = amt, base_tax_amount = amt,
      tax_amount_after_discount_amount = amt, base_tax_amount_after_discount_amount = amt,
      item_wise_tax_detail = ''{}'', row_total = tot, row_base_total = tot\<rparr>"

definition invoice_of :: "invoice_item list \<Rightarrow> tax_row list \<Rightarrow> real \<Rightarrow> sales_invoice" where
  "invoice_of its rows net =
     \<lparr>items = its, taxes = rows, net_total = Some net, base_total = Some net,
      total_taxes_and_charges = 0, base_total_taxes_and_charges = 0, grand_total = 0,
      base_grand_total = 0, rounding_adjustment = 0, rounded_total = 0,
      base_rounded_total = 0, outstanding_amount = 0\<rparr>"

definition totals_of :: "real \<Rightarrow> real \<Rightarrow> real \<Rightarrow> sales_invoice \<Rightarrow> sales_invoice" where
  "totals_of tax grand rounded doc =
     doc\<lparr>total_taxes_and_charges := tax, base_total_taxes_and_charges := tax,
         grand_total := grand, base_grand_total := grand,
         rounding_adjustment := rounded - grand, rounded_total := rounded,
         base_rounded_total := rounded, outstanding_amount := rounded\<rparr>"

text \<open>An intrastate invoice: one item at 9 + 9 percent, a CGST and an SGST row.\<close>

definition ex_intra :: sales_invoice where
  "ex_intra =
     invoice_of [item_of ''ITEM-A'' 1000 (Some 9) (Some 9) None]
       [row_of ''Output Tax CGST - K'' 0 0, row_of ''Output Tax SGST - K'' 0 0] 1000"

definition ex_intra_out :: sales_invoice where
  "ex_intra_out =
     totals_of 180 1180 1180
       (invoice_of [annotated 90 90 0 (item_of ''ITEM-A'' 1000 (Some 9) (Some 9) None)]
          [(row_of ''Output Tax CGST - K'' 90 1090)\<lparr>item_wise_tax_detail := ''ITEM-A;''\<rparr>,
           (row_of ''Output Tax SGST - K'' 90 1180)\<lparr>item_wise_tax_detail := ''ITEM-A;''\<rparr>]
          1000)"

text \<open>An interstate invoice: one item at 18 percent, a single IGST row.\<close>

definition ex_inter :: sales_invoice where
  "ex_inter =
     invoice_of [item_of ''ITEM-A'' 1000 None None (Some 18)]
       [row_of ''Output Tax IGST - K'' 0 0] 1000"

definition ex_inter_out :: sales_invoice where
  "ex_inter_out =
     totals_of 180 1180 1180
       (invoice_of [annotated 0 0 180 (item_of ''ITEM-A'' 1000 None None (Some 18))]
          [(row_of ''Output Tax IGST - K'' 180 1180)\<lparr>item_wise_tax_detail := ''ITEM-A;''\<rparr>]
          1000)"

text \<open>The intrastate invoice with a third row, a freight charge of 50.\<close>

definition ex_freight :: sales_invoice where
  "ex_freight =
     invoice_of [item_of ''ITEM-A'' 1000 (Some 9) (Some 9) None]
       [row_of ''Output Tax CGST - K'' 90 1090, row_of ''Output Tax SGST - K'' 90 1180,
        row_of ''Freight and Forwarding Charges - K'' 50 1230] 1000"

definition ex_freight_out :: sales_invoice where
  "ex_freight_out =
     totals_of 180 1180 1180
       (invoice_of [annotated 90 90 0 (item_of ''ITEM-A'' 1000 (Some 9) (Some 9) None)]
          [(row_of ''Output Tax CGST - K'' 90 1090)\<lparr>item_wise_tax_detail := ''ITEM-A;''\<rparr>,
           (row_of ''Output Tax SGST - K'' 90 1180)\<lparr>item_wise_tax_detail := ''ITEM-A;''\<rparr>,
           row_of ''Freight and Forwarding Charges - K'' 50 1230]
          1000)"

text \<open>An invoice without GST whose only tax row is the freight charge.\<close>

definition ex_single_freight :: sales_invoice where
  "ex_single_freight =
     invoice_of [item_of ''ITEM-A'' 1000 None None None]
       [row_of ''Freight and Forwarding Charges - K'' 50 1050] 1000"

definition ex_single_freight_out :: sales_invoice where
  "ex_single_freight_out =
     totals_of 0 1000 1000
       (invoice_of [annotated 0 0 0 (item_of ''ITEM-A'' 1000 None None None)]
          [row_of ''Freight and Forwarding Charges - K'' 50 1000] 1000)"

text \<open>An invoice without tax rows and with a total of 10.5.\<close>

definition ex_half :: sales_invoice where
  "ex_half = invoice_of [item_of ''ITEM-B'' (21 / 2) None None None] [] (21 / 2)"

definition ex_half_out :: sales_invoice where
  "ex_half_out =
     totals_of 0 (21 / 2) 11
       (invoice_of [annotated 0 0 0 (item_of ''ITEM-B'' (21 / 2) None None None)] [] (21 / 2))"

text \<open>
  An intrastate invoice whose tax lies on a rounding boundary: 9 percent of 11.5 is
  1.035.
\<close>

definition ex_boundary :: sales_invoice where
  "ex_boundary =
     invoice_of [item_of ''ITEM-A'' (23 / 2) (Some 9) (Some 9) None]
       [row_of ''Output Tax CGST - K'' 0 0, row_of ''Output Tax SGST - K'' 0 0] (23 / 2)"

definition ex_boundary_out :: sales_invoice where
  "ex_boundary_out =
     totals_of (2 * double_of (103 / 100)) (23 / 2 + 2 * double_of (103 / 100)) 14
       (invoice_of
          [annotated (double_of (103 / 100)) (double_of (103 / 100)) 0
             (item_of ''ITEM-A'' (23 / 2) (Some 9) (Some 9) None)]
          [(row_of ''Output Tax CGST - K'' (double_of (103 / 100))
              (23 / 2 + double_of (103 / 100)))\<lparr>item_wise_tax_detail := ''ITEM-A;''\<rparr>,
           (row_of ''Output Tax SGST - K'' (double_of (103 / 100))
              (23 / 2 + 2 * double_of (103 / 100)))\<lparr>item_wise_tax_detail := ''ITEM-A;''\<rparr>]
          (23 / 2))"



text \<open>Two line items that carry the same item code.\<close>

definition ex_duplicate :: sales_invoice where
  "ex_duplicate =
     invoice_of [item_of ''ITEM-A'' 100 (Some 9) (Some 9) None,
                 item_of ''ITEM-A'' 200 (Some 9) (Some 9) None]
       [row_of ''Output Tax CGST - K'' 0 0, row_of ''Output Tax SGST - K'' 0 0] 300"

section \<open>The examples, run\<close>

lemma ex_intra_run: "apply_tally_tax_calculation dumps_keys ex_intra = Inr ex_intra_out"
  by code_simp

lemma ex_inter_run: "apply_tally_tax_calculation dumps_keys ex_inter = Inr ex_inter_out"
  by code_simp

lemma ex_freight_run: "apply_tally_tax_calculation dumps_keys ex_freight = Inr ex_freight_out"
  by code_simp

lemma ex_single_freight_run:
  "apply_tally_tax_calculation dumps_keys ex_single_freight = Inr ex_single_freight_out"
  by code_simp

lemma ex_half_run: "apply_tally_tax_calculation dumps_keys ex_half = Inr ex_half_out"
  by code_simp

lemma ex_boundary_run: "apply_tally_tax_calculation dumps_keys ex_boundary = Inr ex_boundary_out"
  by code_simp


section \<open>Lemmas about the loops and the engine\<close>

lemma py_int_truncate: "py_int x = truncate_toward_zero x"
  by (simp add: py_int_def truncate_toward_zero_def ceiling_def)

subsection \<open>The rounding to doubles\<close>

lemma pow2_powr: "pow2 e = 2 powr (real_of_int e)"
  by (auto simp: pow2_def powr_realpow[symmetric] powr_minus divide_simps)

lemma pow2_pos [simp]: "0 < pow2 e"
  by (simp add: pow2_powr)

lemma pow2_nz [simp]: "pow2 e \<noteq> 0"
  using pow2_pos[of e] by linarith

lemma abs_pow2 [simp]: "\<bar>pow2 e\<bar> = pow2 e"
  using pow2_pos[of e] by linarith

lemma pow2_add: "pow2 (a + b) = pow2 a * pow2 b"
  by (simp add: pow2_powr powr_add)

lemma pow2_nonneg_eq: "0 \<le> e \<Longrightarrow> pow2 e = 2 ^ nat e"
  by (simp add: pow2_def)

lemma pow2_neg: "pow2 (- e) = 1 / pow2 e"
  by (simp add: pow2_powr powr_minus divide_simps)

lemma ilog2_bounds:
  assumes "0 < x"
  shows "pow2 (ilog2 x) \<le> x \<and> x < pow2 (ilog2 x + 1)"
proof (cases "1 \<le> x")
  case True
  define n where "n = \<lfloor>x\<rfloor>"
  from True have n: "0 < n" by (simp add: n_def)
  then have b: "1 \<le> bitlen n" by (simp add: bitlen_alt_def)
  from bitlen_bounds[OF n] have lo: "(2::int) ^ nat (bitlen n - 1) \<le> n"
    and hi: "n < 2 ^ nat (bitlen n)" by simp_all
  have "real_of_int ((2::int) ^ nat (bitlen n - 1)) \<le> real_of_int n"
    using lo by linarith
  also have "\<dots> \<le> x" by (simp add: n_def)
  finally have 1: "pow2 (bitlen n - 1) \<le> x" using b by (simp add: pow2_nonneg_eq)
  from hi have "n + 1 \<le> 2 ^ nat (bitlen n)" by simp
  then have "real_of_int (n + 1) \<le> real_of_int (2 ^ nat (bitlen n))" by linarith
  moreover have "x < real_of_int (n + 1)" by (simp add: n_def)
  ultimately have 2: "x < pow2 (bitlen n)" using b by (simp add: pow2_nonneg_eq)
  from True 1 2 show ?thesis by (simp add: ilog2_def n_def)
next
  case False
  define y where "y = 1 / x"
  define N where "N = \<lceil>y\<rceil>"
  define k where "k = bitlen (N - 1)"
  from False assms have y: "1 < y" by (simp add: y_def)
  then have N: "0 < N - 1" by (simp add: N_def less_ceiling_iff)
  then have k: "1 \<le> k" by (simp add: k_def bitlen_alt_def)
  from bitlen_bounds[OF N] have lo: "(2::int) ^ nat (k - 1) \<le> N - 1"
    and hi: "N - 1 < 2 ^ nat k" by (simp_all add: k_def)
  from hi have "N \<le> 2 ^ nat k" by simp
  then have "real_of_int N \<le> real_of_int (2 ^ nat k)" by (simp only: of_int_le_iff)
  then have "real_of_int N \<le> 2 ^ nat k" by (simp only: of_int_power of_int_numeral)
  moreover have "y \<le> real_of_int N" by (simp add: N_def)
  ultimately have "y \<le> 2 ^ nat k" by linarith
  then have "y \<le> pow2 k" using k by (simp add: pow2_nonneg_eq)
  then have 1: "pow2 (- k) \<le> x" using assms
    by (simp add: pow2_neg y_def divide_simps mult.commute)
  have "real_of_int (N - 1) < y" unfolding N_def by linarith
  moreover have "real_of_int ((2::int) ^ nat (k - 1)) \<le> real_of_int (N - 1)"
    using lo by linarith
  ultimately have "pow2 (k - 1) < y" using k by (simp add: pow2_nonneg_eq)
  then have "x < 1 / pow2 (k - 1)" using assms
    by (simp add: y_def field_simps)
  also have "\<dots> = pow2 (- (k - 1))" by (simp only: pow2_neg)
  finally have 2: "x < pow2 (- k + 1)" by simp
  from False 1 2 show ?thesis by (simp add: ilog2_def y_def N_def k_def)
qed

lemma round_even_bounds: "\<bar>real_of_int (round_even y) - y\<bar> \<le> 1 / 2"
  unfolding round_even_def Let_def by (simp; linarith)

lemma round_even_int [simp]: "round_even (real_of_int n) = n"
  by (simp add: round_even_def)

text \<open>The double nearest a real is within half a unit in the last place.\<close>

lemma double_of_error:
  "\<bar>double_of x - x\<bar> \<le> pow2 (ilog2 \<bar>x\<bar> - 53)"
proof (cases "x = 0")
  case True
  then show ?thesis by (simp add: double_of_def less_imp_le)
next
  case False
  define e where "e = ilog2 \<bar>x\<bar> - 52"
  define m where "m = round_even (\<bar>x\<bar> / pow2 e)"
  have d: "double_of x = sgn x * real_of_int m * pow2 e"
    using False by (simp add: double_of_def e_def m_def Let_def)
  have "\<bar>double_of x - x\<bar> = \<bar>sgn x * (real_of_int m - \<bar>x\<bar> / pow2 e) * pow2 e\<bar>"
    using False by (simp add: d algebra_simps sgn_real_def)
  also have "\<dots> = \<bar>real_of_int m - \<bar>x\<bar> / pow2 e\<bar> * pow2 e"
    using False by (simp add: abs_mult sgn_real_def)
  also have "\<dots> \<le> 1 / 2 * pow2 e"
    using round_even_bounds[of "\<bar>x\<bar> / pow2 e"] by (simp add: m_def)
  also have "\<dots> = pow2 (e - 1)" by (simp add: pow2_powr powr_diff)
  finally show ?thesis by (simp add: e_def)
qed

text \<open>Its mantissa has 53 bits, the binary exponent being that of the argument.\<close>

lemma double_of_mantissa:
  assumes "x \<noteq> 0"
  shows "\<exists>m. double_of x = sgn x * real_of_int m * pow2 (ilog2 \<bar>x\<bar> - 52) \<and>
             2 ^ 52 \<le> m \<and> m \<le> 2 ^ 53"
proof -
  define e where "e = ilog2 \<bar>x\<bar> - 52"
  define y where "y = \<bar>x\<bar> / pow2 e"
  define m where "m = round_even y"
  from assms have p: "0 < \<bar>x\<bar>" by simp
  have s: "pow2 (ilog2 \<bar>x\<bar>) = pow2 e * 2 ^ 52" "pow2 (ilog2 \<bar>x\<bar> + 1) = pow2 e * 2 ^ 53"
    by (simp_all add: e_def pow2_powr powr_diff powr_add)
  from ilog2_bounds[OF p] have "pow2 e * 2 ^ 52 \<le> \<bar>x\<bar>" "\<bar>x\<bar> < pow2 e * 2 ^ 53"
    by (simp_all add: s)
  then have y: "2 ^ 52 \<le> y" "y < 2 ^ 53"
    by (simp_all add: y_def field_simps)
  from round_even_bounds[of y] have b: "y - 1 / 2 \<le> real_of_int m" "real_of_int m \<le> y + 1 / 2"
    unfolding m_def by linarith+
  from y(1) b(1) have "real_of_int (2 ^ 52 - 1) < real_of_int m" by simp
  then have lo: "2 ^ 52 \<le> m" by linarith
  from y(2) b(2) have "real_of_int m < real_of_int (2 ^ 53 + 1)" by simp
  then have hi: "m \<le> 2 ^ 53" by linarith
  have "double_of x = sgn x * real_of_int m * pow2 e"
    using assms by (simp add: double_of_def Let_def m_def y_def e_def)
  with lo hi show ?thesis unfolding e_def by blast
qed

lemma double_of_zero [simp]: "double_of 0 = 0"
  by (simp add: double_of_def)

lemma double_of_100 [simp]: "double_of 100 = 100"
  by code_simp


lemma round_half_up_Half_Up_Integer: "real_of_int (round_half_up x) = Half_Up_Integer x"
  by (simp add: round_half_up_def Half_Up_Integer_def py_int_truncate Let_def)

subsection \<open>The loop over the items\<close>

lemma fst_item_step:
  "fst (item_step item t) =
     item\<lparr>cgst_amount := Some (item_cgst item), sgst_amount := Some (item_sgst item),
          igst_amount := Some (item_igst item)\<rparr>"
  by (simp add: item_step_def Let_def item_cgst_def item_sgst_def item_igst_def)


lemma snd_item_step_maps:
  "cgst_item_wise (snd (item_step item t)) =
     (if flt (cgst_rate item) > 0
      then AList.update (item_code item) (flt (cgst_rate item), item_cgst item) (cgst_item_wise t)
      else cgst_item_wise t)"
  "sgst_item_wise (snd (item_step item t)) =
     (if flt (sgst_rate item) > 0
      then AList.update (item_code item) (flt (sgst_rate item), item_sgst item) (sgst_item_wise t)
      else sgst_item_wise t)"
  "igst_item_wise (snd (item_step item t)) =
     (if flt (igst_rate item) > 0
      then AList.update (item_code item) (flt (igst_rate item), item_igst item) (igst_item_wise t)
      else igst_item_wise t)"
  by (simp_all add: item_step_def Let_def item_cgst_def item_sgst_def item_igst_def)

lemma item_loop_Cons:
  "item_loop (item # rest) t =
     (fst (item_step item t) # fst (item_loop rest (snd (item_step item t))),
      snd (item_loop rest (snd (item_step item t))))"
  by (simp add: split_beta)

lemma fst_item_loop:
  "fst (item_loop xs t) = map (\<lambda>item. fst (item_step item t0)) xs"
  by (induction xs arbitrary: t) (simp_all add: item_loop_Cons fst_item_step del: item_loop.simps(2))


lemma update_tax_row_kind:
  "update_tax_row dumps t tax =
     (case row_kind tax of
        None \<Rightarrow> Inl AttributeError
      | Some Central \<Rightarrow> Inr (set_row_amounts (total_cgst t) (dumps (cgst_item_wise t)) tax)
      | Some State \<Rightarrow> Inr (set_row_amounts (total_sgst t) (dumps (sgst_item_wise t)) tax)
      | Some Integrated \<Rightarrow> Inr (set_row_amounts (total_igst t) (dumps (igst_item_wise t)) tax)
      | Some Unrecognized \<Rightarrow> Inr tax)"
proof (cases "gst_tax_type_of tax")
  case (Inl e)
  then show ?thesis by (cases e) (simp add: update_tax_row_def row_kind_def)
next
  case (Inr ty)
  then show ?thesis by (simp add: update_tax_row_def row_kind_def kind_of_def)
qed

lemma gst_tax_type_of_set_row_amounts [simp]:
  "gst_tax_type_of (set_row_amounts x d tax) = gst_tax_type_of tax"
  by (simp add: gst_tax_type_of_def set_row_amounts_def split: option.splits)

lemma gst_tax_type_of_set_row_total [simp]:
  "gst_tax_type_of (set_row_total x tax) = gst_tax_type_of tax"
  by (simp add: gst_tax_type_of_def set_row_total_def split: option.splits)

lemma row_kind_set_row_amounts [simp]: "row_kind (set_row_amounts x d tax) = row_kind tax"
  by (simp add: row_kind_def)

lemma row_kind_set_row_total [simp]: "row_kind (set_row_total x tax) = row_kind tax"
  by (simp add: row_kind_def)

lemma set_row_amounts_idem [simp]:
  "set_row_amounts x d (set_row_amounts x d tax) = set_row_amounts x d tax"
  by (simp add: set_row_amounts_def)

lemma set_row_amounts_set_row_total:
  "set_row_amounts x d (set_row_total y tax) = set_row_total y (set_row_amounts x d tax)"
  by (simp add: set_row_amounts_def set_row_total_def)

lemma set_row_amounts_totals [simp]:
  "row_total (set_row_amounts x d tax) = row_total tax"
  "row_base_total (set_row_amounts x d tax) = row_base_total tax"
  by (simp_all add: set_row_amounts_def)

lemma update_tax_row_kind_preserved:
  "update_tax_row dumps t tax = Inr tax' \<Longrightarrow> row_kind tax' = row_kind tax"
  by (auto simp: update_tax_row_kind split: option.splits tax_kind.splits)

lemma update_tax_row_idem:
  "update_tax_row dumps t tax = Inr tax' \<Longrightarrow> update_tax_row dumps t tax' = Inr tax'"
  by (auto simp: update_tax_row_kind split: option.splits tax_kind.splits)

lemma update_tax_row_set_row_total:
  "update_tax_row dumps t tax = Inr tax' \<Longrightarrow>
   update_tax_row dumps t (set_row_total x tax) = Inr (set_row_total x tax')"
  by (auto simp: update_tax_row_kind set_row_amounts_set_row_total
           split: option.splits tax_kind.splits)


lemma tax_loop_Cons_Inr:
  "tax_loop dumps t (tax # rest) = Inr rows' \<longleftrightarrow>
   (\<exists>tax' rest'. update_tax_row dumps t tax = Inr tax' \<and> tax_loop dumps t rest = Inr rest' \<and>
                 rows' = tax' # rest')"
  by (auto split: sum.splits)

lemma tax_loop_length: "tax_loop dumps t rows = Inr rows' \<Longrightarrow> length rows' = length rows"
  by (induction rows arbitrary: rows') (auto simp: tax_loop_Cons_Inr simp del: tax_loop.simps(2))

lemma tax_loop_nth:
  "tax_loop dumps t rows = Inr rows' \<Longrightarrow> i < length rows \<Longrightarrow>
   update_tax_row dumps t (rows ! i) = Inr (rows' ! i)"
proof (induction rows arbitrary: rows' i)
  case Nil
  then show ?case by simp
next
  case (Cons tax rest)
  then obtain tax' rest' where
    h: "update_tax_row dumps t tax = Inr tax'" "tax_loop dumps t rest = Inr rest'"
       "rows' = tax' # rest'"
    by (auto simp: tax_loop_Cons_Inr simp del: tax_loop.simps(2))
  show ?case
  proof (cases i)
    case 0
    with h show ?thesis by simp
  next
    case (Suc j)
    with Cons.prems(2) have "j < length rest" by simp
    from Cons.IH[OF h(2) this] h(3) Suc show ?thesis by simp
  qed
qed

lemma tax_loop_idem: "tax_loop dumps t rows = Inr rows' \<Longrightarrow> tax_loop dumps t rows' = Inr rows'"
proof (induction rows arbitrary: rows')
  case Nil
  then show ?case by simp
next
  case (Cons tax rest)
  then obtain tax' rest' where
    h: "update_tax_row dumps t tax = Inr tax'" "tax_loop dumps t rest = Inr rest'"
       "rows' = tax' # rest'"
    by (auto simp: tax_loop_Cons_Inr simp del: tax_loop.simps(2))
  from Cons.IH[OF h(2)] update_tax_row_idem[OF h(1)] h(3) show ?case by simp
qed

lemma tax_loop_total:
  "tax_loop dumps t rows = Inr rows' \<longleftrightarrow>
   (\<forall>tax \<in> set rows. row_kind tax \<noteq> None) \<and>
   rows' = map (\<lambda>tax. case update_tax_row dumps t tax of Inr tax' \<Rightarrow> tax' | Inl e \<Rightarrow> tax) rows"
proof (induction rows arbitrary: rows')
  case Nil
  then show ?case by auto
next
  case (Cons tax rest)
  have k: "(\<exists>tax'. update_tax_row dumps t tax = Inr tax') \<longleftrightarrow> row_kind tax \<noteq> None"
    by (auto simp: update_tax_row_kind split: option.splits tax_kind.splits)
  show ?case
    unfolding tax_loop_Cons_Inr using Cons.IH k by (auto split: sum.splits)
qed

lemma cumulative_totals_shape:
  "(\<exists>a. rows = [a]) \<or> (\<exists>a b. rows = [a, b]) \<or>
   (length rows \<noteq> 1 \<and> length rows \<noteq> 2 \<and> cumulative_totals b t rows = rows)"
proof (cases rows)
  case Nil
  then show ?thesis by simp
next
  case (Cons a r1)
  show ?thesis
  proof (cases r1)
    case Nil
    with Cons show ?thesis by simp
  next
    case (Cons b' r2)
    with \<open>rows = a # r1\<close> show ?thesis by (cases r2) simp_all
  qed
qed

lemma length_cumulative_totals [simp]: "length (cumulative_totals b t rows) = length rows"
  using cumulative_totals_shape[of rows b t] by auto

lemma cumulative_totals_idem:
  assumes "tax_loop dumps t rows = Inr rows'"
  shows "tax_loop dumps t (cumulative_totals b t rows') = Inr (cumulative_totals b t rows')"
    and "cumulative_totals b t (cumulative_totals b t rows') = cumulative_totals b t rows'"
proof -
  from assms have i: "tax_loop dumps t rows' = Inr rows'" by (rule tax_loop_idem)
  consider a where "rows' = [a]" | a c where "rows' = [a, c]"
    | "cumulative_totals b t rows' = rows'"
    using cumulative_totals_shape[of rows' b t] by blast
  then show "tax_loop dumps t (cumulative_totals b t rows') = Inr (cumulative_totals b t rows')"
  proof cases
    case 1
    with i show ?thesis
      by (auto simp: update_tax_row_set_row_total split: sum.splits)
  next
    case 2
    with i show ?thesis
      by (auto simp: update_tax_row_set_row_total split: sum.splits)
  next
    case 3
    with i show ?thesis by simp
  qed
  show "cumulative_totals b t (cumulative_totals b t rows') = cumulative_totals b t rows'"
    using cumulative_totals_shape[of rows' b t] by (auto simp: set_row_total_def)
qed

lemma engine_Inr:
  assumes "apply_tally_tax_calculation dumps doc = Inr doc'"
  obtains taxes' where
    "tax_loop dumps (tally_of doc) (taxes doc) = Inr taxes'"
    "doc' = doc\<lparr>items := fst (item_loop (items doc) tally_init),
               taxes := cumulative_totals (flt (base_total doc)) (tally_of doc) taxes',
               total_taxes_and_charges := total_tax_amount_of doc,
               base_total_taxes_and_charges := total_tax_amount_of doc,
               grand_total := flt (net_total doc) + total_tax_amount_of doc,
               base_grand_total := flt (base_total doc) + total_tax_amount_of doc,
               rounding_adjustment :=
                 real_of_int (base_rounded_total_of (flt (base_total doc) + total_tax_amount_of doc))
                 - (flt (base_total doc) + total_tax_amount_of doc),
               rounded_total :=
                 real_of_int (round_half_up (flt (net_total doc) + total_tax_amount_of doc)),
               base_rounded_total :=
                 real_of_int (base_rounded_total_of (flt (base_total doc) + total_tax_amount_of doc)),
               outstanding_amount :=
                 real_of_int (base_rounded_total_of (flt (base_total doc) + total_tax_amount_of doc))\<rparr>"
  using assms
  by (auto simp: apply_tally_tax_calculation_def tally_of_def total_tax_amount_of_def Let_def
           split: prod.splits sum.splits)

lemma engine_returns:
  "(\<exists>doc'. apply_tally_tax_calculation dumps doc = Inr doc') \<longleftrightarrow>
   (\<forall>tax \<in> set (taxes doc). row_kind tax \<noteq> None)"
proof -
  have "(\<exists>doc'. apply_tally_tax_calculation dumps doc = Inr doc') \<longleftrightarrow>
        (\<exists>taxes'. tax_loop dumps (tally_of doc) (taxes doc) = Inr taxes')"
    by (auto simp: apply_tally_tax_calculation_def tally_of_def Let_def
             split: prod.splits sum.splits)
  then show ?thesis by (simp add: tax_loop_total)
qed

lemma fst_item_loop_map:
  "fst (item_loop xs t) =
   map (\<lambda>item. item\<lparr>cgst_amount := Some (item_cgst item), sgst_amount := Some (item_sgst item),
                      igst_amount := Some (item_igst item)\<rparr>) xs"
  by (induction xs arbitrary: t) (simp_all add: item_loop_Cons fst_item_step del: item_loop.simps(2))


lemma base_rounded_total_of_floor: "base_rounded_total_of x = \<lfloor>x + 1 / 2\<rfloor>"
  unfolding base_rounded_total_of_def Let_def by (simp; linarith)

lemma base_rounded_total_of_nonneg:
  "0 \<le> x \<Longrightarrow> real_of_int (base_rounded_total_of x) = Half_Up_Integer x"
  by (simp add: base_rounded_total_of_def Half_Up_Integer_def truncate_toward_zero_def Let_def)

lemma base_rounded_total_of_bound: "\<bar>real_of_int (base_rounded_total_of x) - x\<bar> < 1"
  unfolding base_rounded_total_of_def Let_def by (simp; linarith)

lemma item_step_annotated:
  "item_step (fst (item_step item t0)) t = (fst (item_step item t0), snd (item_step item t))"
  by (simp add: item_step_def Let_def)

lemma item_loop_annotated:
  "item_loop (map (\<lambda>item. fst (item_step item t0)) xs) t =
   (map (\<lambda>item. fst (item_step item t0)) xs, snd (item_loop xs t))"
  by (induction xs arbitrary: t)
     (simp_all add: item_loop_Cons item_step_annotated del: item_loop.simps(2))

lemma item_loop_idem:
  "item_loop (fst (item_loop xs tally_init)) tally_init = item_loop xs tally_init"
  by (simp add: fst_item_loop[where ?t0.0 = tally_init] item_loop_annotated prod_eq_iff)

lemma tax_amount_cumulative_totals [simp]:
  "map tax_amount (cumulative_totals b t rows) = map tax_amount rows"
  using cumulative_totals_shape[of rows b t] by (auto simp: set_row_total_def)


lemma cumulative_totals_nth:
  assumes "i < length rows"
  shows "cumulative_totals b t rows ! i =
           (rows ! i)\<lparr>row_total := row_total (cumulative_totals b t rows ! i),
                       row_base_total := row_base_total (cumulative_totals b t rows ! i)\<rparr>"
proof -
  consider a where "rows = [a]" | a c where "rows = [a, c]"
    | "cumulative_totals b t rows = rows"
    using cumulative_totals_shape[of rows b t] by blast
  then show ?thesis
  proof cases
    case 1
    with assms show ?thesis by (simp add: set_row_total_def)
  next
    case 2
    with assms have "i = 0 \<or> i = 1" by auto
    with 2 show ?thesis by (auto simp: set_row_total_def)
  next
    case 3
    then show ?thesis by simp
  qed
qed

lemma map_of_item_step:
  "map_of (cgst_item_wise (snd (item_step item t))) k =
     (if 0 < flt (cgst_rate item) \<and> k = item_code item
      then Some (flt (cgst_rate item), item_cgst item) else map_of (cgst_item_wise t) k)"
  "map_of (sgst_item_wise (snd (item_step item t))) k =
     (if 0 < flt (sgst_rate item) \<and> k = item_code item
      then Some (flt (sgst_rate item), item_sgst item) else map_of (sgst_item_wise t) k)"
  "map_of (igst_item_wise (snd (item_step item t))) k =
     (if 0 < flt (igst_rate item) \<and> k = item_code item
      then Some (flt (igst_rate item), item_igst item) else map_of (igst_item_wise t) k)"
  by (simp_all add: snd_item_step_maps update_conv')

lemma item_loop_maps_notin:
  "k \<notin> item_code ` set xs \<Longrightarrow>
   map_of (cgst_item_wise (snd (item_loop xs t))) k = map_of (cgst_item_wise t) k \<and>
   map_of (sgst_item_wise (snd (item_loop xs t))) k = map_of (sgst_item_wise t) k \<and>
   map_of (igst_item_wise (snd (item_loop xs t))) k = map_of (igst_item_wise t) k"
  by (induction xs arbitrary: t)
     (auto simp: item_loop_Cons map_of_item_step simp del: item_loop.simps(2))

lemma item_loop_maps_in:
  "distinct (map item_code xs) \<Longrightarrow> item \<in> set xs \<Longrightarrow>
   map_of (cgst_item_wise (snd (item_loop xs t))) (item_code item) =
     (if 0 < flt (cgst_rate item) then Some (flt (cgst_rate item), item_cgst item)
      else map_of (cgst_item_wise t) (item_code item)) \<and>
   map_of (sgst_item_wise (snd (item_loop xs t))) (item_code item) =
     (if 0 < flt (sgst_rate item) then Some (flt (sgst_rate item), item_sgst item)
      else map_of (sgst_item_wise t) (item_code item)) \<and>
   map_of (igst_item_wise (snd (item_loop xs t))) (item_code item) =
     (if 0 < flt (igst_rate item) then Some (flt (igst_rate item), item_igst item)
      else map_of (igst_item_wise t) (item_code item))"
proof (induction xs arbitrary: t)
  case Nil
  then show ?case by simp
next
  case (Cons x xs)
  show ?case
  proof (cases "item = x")
    case True
    from Cons.prems(1) have "item_code x \<notin> item_code ` set xs" by simp
    from item_loop_maps_notin[OF this, of "snd (item_step x t)"] True
    show ?thesis by (simp add: item_loop_Cons map_of_item_step del: item_loop.simps(2))
  next
    case False
    with Cons.prems have m: "item \<in> set xs" and d: "distinct (map item_code xs)"
      and n: "item_code item \<noteq> item_code x" by (auto simp: image_iff)
    from Cons.IH[OF d m, of "snd (item_step x t)"] n
    show ?thesis by (simp add: item_loop_Cons map_of_item_step del: item_loop.simps(2))
  qed
qed

lemma round_half_zero: "round_half 0 2 = 0"
  by code_simp

lemma zero_rate_amount: "round_half (fdiv (fmul a 0) 100) 2 = 0"
  by (simp add: fmul_def fdiv_def round_half_zero)

text \<open>
  What step 3 leaves on a recognised row: its type's total and its type's breakup
  dictionary, serialised.
\<close>

lemma recognised_row_fields:
  assumes "apply_tally_tax_calculation dumps doc = Inr doc'"
    and "i < length (taxes doc)"
  shows "row_kind (taxes doc ! i) = Some Central \<Longrightarrow>
           tax_amount (taxes doc' ! i) = total_cgst (tally_of doc) \<and>
           item_wise_tax_detail (taxes doc' ! i) = dumps (cgst_item_wise (tally_of doc))"
    and "row_kind (taxes doc ! i) = Some State \<Longrightarrow>
           tax_amount (taxes doc' ! i) = total_sgst (tally_of doc) \<and>
           item_wise_tax_detail (taxes doc' ! i) = dumps (sgst_item_wise (tally_of doc))"
    and "row_kind (taxes doc ! i) = Some Integrated \<Longrightarrow>
           tax_amount (taxes doc' ! i) = total_igst (tally_of doc) \<and>
           item_wise_tax_detail (taxes doc' ! i) = dumps (igst_item_wise (tally_of doc))"
proof -
  from assms(1) obtain taxes' where
    l: "tax_loop dumps (tally_of doc) (taxes doc) = Inr taxes'" and
    d: "taxes doc' = cumulative_totals (flt (base_total doc)) (tally_of doc) taxes'"
    by (rule engine_Inr) simp
  have len: "length taxes' = length (taxes doc)" using l by (rule tax_loop_length)
  with assms(2) have i: "i < length taxes'" by simp
  have u: "update_tax_row dumps (tally_of doc) (taxes doc ! i) = Inr (taxes' ! i)"
    using l assms(2) by (rule tax_loop_nth)
  have f: "tax_amount (taxes doc' ! i) = tax_amount (taxes' ! i)"
          "item_wise_tax_detail (taxes doc' ! i) = item_wise_tax_detail (taxes' ! i)"
    unfolding d by (subst cumulative_totals_nth[OF i], simp)+
  show "row_kind (taxes doc ! i) = Some Central \<Longrightarrow>
           tax_amount (taxes doc' ! i) = total_cgst (tally_of doc) \<and>
           item_wise_tax_detail (taxes doc' ! i) = dumps (cgst_item_wise (tally_of doc))"
    using u[symmetric] by (simp add: f update_tax_row_kind set_row_amounts_def)
  show "row_kind (taxes doc ! i) = Some State \<Longrightarrow>
           tax_amount (taxes doc' ! i) = total_sgst (tally_of doc) \<and>
           item_wise_tax_detail (taxes doc' ! i) = dumps (sgst_item_wise (tally_of doc))"
    using u[symmetric] by (simp add: f update_tax_row_kind set_row_amounts_def)
  show "row_kind (taxes doc ! i) = Some Integrated \<Longrightarrow>
           tax_amount (taxes doc' ! i) = total_igst (tally_of doc) \<and>
           item_wise_tax_detail (taxes doc' ! i) = dumps (igst_item_wise (tally_of doc))"
    using u[symmetric] by (simp add: f update_tax_row_kind set_row_amounts_def)
qed

section \<open>The claims\<close>

text \<open>
  Throughout, \<open>apply_tally_tax_calculation dumps doc = Inr doc'\<close> says that the engine
  returns on \<open>doc\<close> and leaves \<open>doc'\<close>. By \<open>engine_returns\<close> it returns exactly when
  every tax row has a classifier.
\<close>

text \<open>
  C1. The claim gives every line item the amount Half-Up-N of \<open>amount * rate / 100\<close>.
  At an amount of 11.5 and a CGST rate of 9 the tax is 1.035 and Half-Up-N of it is
  1.04. The engine stores the double nearest 1.03: the double nearest 1.035 lies
  below it, its product with 100 rounds to a double below 103.5, and adding one half
  and truncating leaves 103.
\<close>

theorem boundary_item_rounds_down:
  "apply_tally_tax_calculation dumps_keys ex_boundary = Inr ex_boundary_out \<and>
   amount (items ex_boundary ! 0) = Some (23 / 2) \<and>
   cgst_rate (items ex_boundary ! 0) = Some 9 \<and>
   fdiv (fmul (23 / 2) 9) 100 < 1035 / 1000 \<and>
   fmul (fdiv (fmul (23 / 2) 9) 100) 100 < 207 / 2 \<and>
   py_int (fadd (fmul (fdiv (fmul (23 / 2) 9) 100) 100) (1 / 2)) = 103 \<and>
   cgst_amount (items ex_boundary_out ! 0) = Some (double_of (103 / 100)) \<and>
   double_of (103 / 100) < 1031 / 1000 \<and>
   Half_Up_N (23 / 2 * 9 / 100) 2 = 104 / 100"
proof -
  have i: "amount (items ex_boundary ! 0) = Some (23 / 2)"
          "cgst_rate (items ex_boundary ! 0) = Some 9"
    by (simp_all add: ex_boundary_def invoice_of_def item_of_def)
  have d: "fdiv (fmul (23 / 2) 9) 100 < 1035 / 1000"
          "fmul (fdiv (fmul (23 / 2) 9) 100) 100 < 207 / 2"
          "py_int (fadd (fmul (fdiv (fmul (23 / 2) 9) 100) 100) (1 / 2)) = 103"
          "double_of (103 / 100) < 1031 / 1000"
    by code_simp+
  have o: "cgst_amount (items ex_boundary_out ! 0) = Some (double_of (103 / 100))"
    by (simp add: ex_boundary_out_def invoice_of_def totals_of_def annotated_def)
  have h: "Half_Up_N (23 / 2 * 9 / 100) 2 = 104 / 100"
    by (simp add: Half_Up_N_def truncate_toward_zero_def)
  from ex_boundary_run i d o h show ?thesis by blast
qed








text \<open>
  C5, as amended. A tax row whose classifier contains none of \<open>cgst\<close>, \<open>sgst\<close>,
  \<open>utgst\<close>, \<open>igst\<close> keeps its four amount fields and its item-wise detail: the
  row the engine leaves differs from it in \<open>total\<close> and \<open>base_total\<close> at most, and
  not at all when the number of tax rows is neither one nor two.
\<close>

theorem unrecognised_row_frame:
  assumes "apply_tally_tax_calculation dumps doc = Inr doc'"
    and "i < length (taxes doc)"
    and "gst_tax_type_of (taxes doc ! i) = Inr ty"
    and "\<not> contains ''cgst'' ty" and "\<not> contains ''sgst'' ty"
    and "\<not> contains ''utgst'' ty" and "\<not> contains ''igst'' ty"
  shows "taxes doc' ! i =
           (taxes doc ! i)\<lparr>row_total := row_total (taxes doc' ! i),
                           row_base_total := row_base_total (taxes doc' ! i)\<rparr> \<and>
         (length (taxes doc) \<noteq> 1 \<and> length (taxes doc) \<noteq> 2 \<longrightarrow> taxes doc' ! i = taxes doc ! i)"
proof -
  from assms(1) obtain taxes' where
    l: "tax_loop dumps (tally_of doc) (taxes doc) = Inr taxes'" and
    d: "taxes doc' = cumulative_totals (flt (base_total doc)) (tally_of doc) taxes'"
    by (rule engine_Inr) simp
  have len: "length taxes' = length (taxes doc)" using l by (rule tax_loop_length)
  from assms(3-7) have "update_tax_row dumps (tally_of doc) (taxes doc ! i) = Inr (taxes doc ! i)"
    by (simp add: update_tax_row_def)
  with tax_loop_nth[OF l assms(2)] have e: "taxes' ! i = taxes doc ! i" by simp
  from assms(2) len have i: "i < length taxes'" by simp
  have one: "taxes doc' ! i =
           (taxes doc ! i)\<lparr>row_total := row_total (taxes doc' ! i),
                           row_base_total := row_base_total (taxes doc' ! i)\<rparr>"
    using cumulative_totals_nth[OF i, of "flt (base_total doc)" "tally_of doc"]
    by (simp add: d e)
  have two: "taxes doc' ! i = taxes doc ! i"
    if "length (taxes doc) \<noteq> 1 \<and> length (taxes doc) \<noteq> 2"
    using that cumulative_totals_shape[of taxes' "flt (base_total doc)" "tally_of doc"] len e
    by (auto simp: d)
  from one two show ?thesis by blast
qed

theorem unrecognised_row_frame_witness:
  "apply_tally_tax_calculation dumps_keys ex_freight = Inr ex_freight_out \<and>
   2 < length (taxes ex_freight) \<and>
   gst_tax_type_of (taxes ex_freight ! 2) = Inr ''freight and forwarding charges - k'' \<and>
   \<not> contains ''cgst'' ''freight and forwarding charges - k'' \<and>
   \<not> contains ''sgst'' ''freight and forwarding charges - k'' \<and>
   \<not> contains ''utgst'' ''freight and forwarding charges - k'' \<and>
   \<not> contains ''igst'' ''freight and forwarding charges - k'' \<and>
   length (taxes ex_freight) \<noteq> 1 \<and> length (taxes ex_freight) \<noteq> 2 \<and>
   taxes ex_freight_out ! 2 = taxes ex_freight ! 2"
proof -
  have l: "2 < length (taxes ex_freight)" "length (taxes ex_freight) \<noteq> 1"
          "length (taxes ex_freight) \<noteq> 2"
    by (simp_all add: ex_freight_def invoice_of_def)
  have g: "gst_tax_type_of (taxes ex_freight ! 2) = Inr ''freight and forwarding charges - k''"
    by code_simp
  have n: "\<not> contains ''cgst'' ''freight and forwarding charges - k''"
          "\<not> contains ''sgst'' ''freight and forwarding charges - k''"
          "\<not> contains ''utgst'' ''freight and forwarding charges - k''"
          "\<not> contains ''igst'' ''freight and forwarding charges - k''"
    by code_simp+
  from unrecognised_row_frame[OF ex_freight_run l(1) g n] l
  have "taxes ex_freight_out ! 2 = taxes ex_freight ! 2" by blast
  with ex_freight_run l g n show ?thesis by blast
qed

text \<open>
  C5 as stated fails on a sole unrecognised row: step 4 overwrites its total, here
  1050, with \<open>base_total + total_igst\<close>, here 1000.
\<close>

theorem unrecognised_row_counterexample:
  "apply_tally_tax_calculation dumps_keys ex_single_freight = Inr ex_single_freight_out \<and>
   gst_tax_type_of (taxes ex_single_freight ! 0) = Inr ''freight and forwarding charges - k'' \<and>
   \<not> contains ''cgst'' ''freight and forwarding charges - k'' \<and>
   \<not> contains ''sgst'' ''freight and forwarding charges - k'' \<and>
   \<not> contains ''utgst'' ''freight and forwarding charges - k'' \<and>
   \<not> contains ''igst'' ''freight and forwarding charges - k'' \<and>
   row_total (taxes ex_single_freight ! 0) = 1050 \<and>
   row_total (taxes ex_single_freight_out ! 0) = 1000 \<and>
   row_base_total (taxes ex_single_freight ! 0) = 1050 \<and>
   row_base_total (taxes ex_single_freight_out ! 0) = 1000"
proof -
  have g: "gst_tax_type_of (taxes ex_single_freight ! 0) =
             Inr ''freight and forwarding charges - k''"
    by code_simp
  have n: "\<not> contains ''cgst'' ''freight and forwarding charges - k''"
          "\<not> contains ''sgst'' ''freight and forwarding charges - k''"
          "\<not> contains ''utgst'' ''freight and forwarding charges - k''"
          "\<not> contains ''igst'' ''freight and forwarding charges - k''"
    by code_simp+
  have v: "row_total (taxes ex_single_freight ! 0) = 1050"
          "row_total (taxes ex_single_freight_out ! 0) = 1000"
          "row_base_total (taxes ex_single_freight ! 0) = 1050"
          "row_base_total (taxes ex_single_freight_out ! 0) = 1000"
    by (simp_all add: ex_single_freight_def ex_single_freight_out_def invoice_of_def
          totals_of_def row_of_def)
  from ex_single_freight_run g n v show ?thesis by blast
qed

text \<open>
  C6. For a \<open>base_grand_total\<close> that is not negative, the domain the specification
  gives the rounding, \<open>base_rounded_total\<close> is Half-Up-Integer of
  \<open>base_grand_total\<close>, \<open>rounding_adjustment\<close> is
  \<open>base_rounded_total - base_grand_total\<close>, its magnitude is below one unit, and
  \<open>base_rounded_total\<close> is an integer.
\<close>

theorem base_rounded_total_half_up:
  assumes "apply_tally_tax_calculation dumps doc = Inr doc'"
    and "0 \<le> base_grand_total doc'"
  shows "base_rounded_total doc' = Half_Up_Integer (base_grand_total doc') \<and>
         rounding_adjustment doc' = base_rounded_total doc' - base_grand_total doc' \<and>
         \<bar>rounding_adjustment doc'\<bar> < 1 \<and>
         base_rounded_total doc' \<in> \<int>"
proof -
  from assms(1) have d:
    "base_rounded_total doc' = real_of_int (base_rounded_total_of (base_grand_total doc'))"
    "rounding_adjustment doc' = base_rounded_total doc' - base_grand_total doc'"
    by (elim engine_Inr, simp)+
  from d(1) assms(2) have 1: "base_rounded_total doc' = Half_Up_Integer (base_grand_total doc')"
    by (simp add: base_rounded_total_of_nonneg)
  from d have 3: "\<bar>rounding_adjustment doc'\<bar> < 1"
    by (simp add: base_rounded_total_of_bound)
  from d(1) have 4: "base_rounded_total doc' \<in> \<int>" by simp
  from 1 d(2) 3 4 show ?thesis by blast
qed

theorem base_rounded_total_half_up_witness:
  "apply_tally_tax_calculation dumps_keys ex_half = Inr ex_half_out \<and>
   0 \<le> base_grand_total ex_half_out \<and>
   base_rounded_total ex_half_out = Half_Up_Integer (base_grand_total ex_half_out) \<and>
   rounding_adjustment ex_half_out = base_rounded_total ex_half_out - base_grand_total ex_half_out \<and>
   \<bar>rounding_adjustment ex_half_out\<bar> < 1 \<and>
   base_rounded_total ex_half_out \<in> \<int> \<and>
   base_grand_total ex_half_out = 21 / 2 \<and>
   base_rounded_total ex_half_out = 11 \<and>
   rounding_adjustment ex_half_out = 1 / 2"
proof -
  have v: "base_grand_total ex_half_out = 21 / 2" "base_rounded_total ex_half_out = 11"
          "rounding_adjustment ex_half_out = 1 / 2"
    by (simp_all add: ex_half_out_def totals_of_def)
  then have p: "0 \<le> base_grand_total ex_half_out" by simp
  from base_rounded_total_half_up[OF ex_half_run p] p v ex_half_run show ?thesis by blast
qed

text \<open>
  C7. After the engine runs, \<open>rounded_total\<close> is Half-Up-Integer of \<open>grand_total\<close>,
  in the specification's wording with truncation toward zero, and
  \<open>outstanding_amount\<close> equals \<open>base_rounded_total\<close>.
\<close>

theorem rounded_total_half_up_integer:
  assumes "apply_tally_tax_calculation dumps doc = Inr doc'"
  shows "rounded_total doc' = Half_Up_Integer (grand_total doc') \<and>
         outstanding_amount doc' = base_rounded_total doc'"
  using assms by (elim engine_Inr) (simp add: round_half_up_Half_Up_Integer)

theorem rounded_total_half_up_integer_witness:
  "apply_tally_tax_calculation dumps_keys ex_half = Inr ex_half_out \<and>
   rounded_total ex_half_out = Half_Up_Integer (grand_total ex_half_out) \<and>
   outstanding_amount ex_half_out = base_rounded_total ex_half_out \<and>
   grand_total ex_half_out = 21 / 2 \<and>
   rounded_total ex_half_out = 11"
proof -
  have v: "grand_total ex_half_out = 21 / 2" "rounded_total ex_half_out = 11"
    by (simp_all add: ex_half_out_def totals_of_def)
  from rounded_total_half_up_integer[OF ex_half_run] v ex_half_run show ?thesis by blast
qed

text \<open>
  C8, as amended. When the item codes of the line items are pairwise distinct, each
  type's breakup dictionary holds, under an item's code, the pair of the item's rate
  and rounded amount if the rate is above zero, and holds nothing under that code
  otherwise; the amount is stored on the item either way, and it is 0 when the rate
  is zero or absent.
\<close>

theorem breakup_entry_iff_distinct:
  assumes "apply_tally_tax_calculation dumps doc = Inr doc'"
    and "distinct (map item_code (items doc))"
    and "i < length (items doc)"
  shows "(map_of (cgst_item_wise (tally_of doc)) (item_code (items doc ! i)) =
            (if 0 < flt (cgst_rate (items doc ! i))
             then Some (flt (cgst_rate (items doc ! i)), item_cgst (items doc ! i)) else None)) \<and>
         (map_of (sgst_item_wise (tally_of doc)) (item_code (items doc ! i)) =
            (if 0 < flt (sgst_rate (items doc ! i))
             then Some (flt (sgst_rate (items doc ! i)), item_sgst (items doc ! i)) else None)) \<and>
         (map_of (igst_item_wise (tally_of doc)) (item_code (items doc ! i)) =
            (if 0 < flt (igst_rate (items doc ! i))
             then Some (flt (igst_rate (items doc ! i)), item_igst (items doc ! i)) else None)) \<and>
         cgst_amount (items doc' ! i) = Some (item_cgst (items doc ! i)) \<and>
         sgst_amount (items doc' ! i) = Some (item_sgst (items doc ! i)) \<and>
         igst_amount (items doc' ! i) = Some (item_igst (items doc ! i)) \<and>
         (flt (cgst_rate (items doc ! i)) = 0 \<longrightarrow> cgst_amount (items doc' ! i) = Some 0) \<and>
         (flt (sgst_rate (items doc ! i)) = 0 \<longrightarrow> sgst_amount (items doc' ! i) = Some 0) \<and>
         (flt (igst_rate (items doc ! i)) = 0 \<longrightarrow> igst_amount (items doc' ! i) = Some 0)"
proof -
  from assms(1) have d: "items doc' = fst (item_loop (items doc) tally_init)"
    by (elim engine_Inr) simp
  from assms(3) have m: "items doc ! i \<in> set (items doc)" by simp
  have a: "cgst_amount (items doc' ! i) = Some (item_cgst (items doc ! i))"
          "sgst_amount (items doc' ! i) = Some (item_sgst (items doc ! i))"
          "igst_amount (items doc' ! i) = Some (item_igst (items doc ! i))"
    using assms(3) by (simp_all add: d fst_item_loop_map)
  have z: "flt (cgst_rate (items doc ! i)) = 0 \<Longrightarrow> item_cgst (items doc ! i) = 0"
          "flt (sgst_rate (items doc ! i)) = 0 \<Longrightarrow> item_sgst (items doc ! i) = 0"
          "flt (igst_rate (items doc ! i)) = 0 \<Longrightarrow> item_igst (items doc ! i) = 0"
    by (simp_all add: item_cgst_def item_sgst_def item_igst_def zero_rate_amount)
  from item_loop_maps_in[OF assms(2) m, of tally_init] a z
  show ?thesis by (simp add: tally_of_def tally_init_def)
qed

theorem breakup_entry_iff_distinct_witness:
  "apply_tally_tax_calculation dumps_keys ex_intra = Inr ex_intra_out \<and>
   distinct (map item_code (items ex_intra)) \<and>
   0 < length (items ex_intra) \<and>
   map_of (cgst_item_wise (tally_of ex_intra)) (item_code (items ex_intra ! 0)) = Some (9, 90) \<and>
   map_of (igst_item_wise (tally_of ex_intra)) (item_code (items ex_intra ! 0)) = None \<and>
   igst_amount (items ex_intra_out ! 0) = Some 0"
proof -
  have d: "distinct (map item_code (items ex_intra))" "0 < length (items ex_intra)"
    by (simp_all add: ex_intra_def invoice_of_def)
  have r: "flt (cgst_rate (items ex_intra ! 0)) = 9" "flt (igst_rate (items ex_intra ! 0)) = 0"
          "item_cgst (items ex_intra ! 0) = 90" "item_igst (items ex_intra ! 0) = 0"
    by code_simp+
  from breakup_entry_iff_distinct[OF ex_intra_run d] r ex_intra_run d
  show ?thesis by simp
qed

text \<open>
  C8 as stated fails when two line items share a code: the second assignment
  replaces the first, so the first item, whose rate of 9 is above zero and whose
  amount is 9, has no entry of its own in the dictionary.
\<close>

theorem breakup_duplicate_counterexample:
  "item_code (items ex_duplicate ! 0) = Some ''ITEM-A'' \<and>
   flt (cgst_rate (items ex_duplicate ! 0)) = 9 \<and>
   item_cgst (items ex_duplicate ! 0) = 9 \<and>
   cgst_item_wise (tally_of ex_duplicate) = [(Some ''ITEM-A'', 9, 18)]"
  by code_simp

text \<open>
  C9. The engine is idempotent: run on the invoice it has left, it returns and
  leaves that invoice unchanged.
\<close>

theorem engine_idempotent:
  assumes "apply_tally_tax_calculation dumps doc = Inr doc'"
  shows "apply_tally_tax_calculation dumps doc' = Inr doc'"
proof -
  from assms obtain taxes' where
    l: "tax_loop dumps (tally_of doc) (taxes doc) = Inr taxes'" and
    d: "doc' = doc\<lparr>items := fst (item_loop (items doc) tally_init),
               taxes := cumulative_totals (flt (base_total doc)) (tally_of doc) taxes',
               total_taxes_and_charges := total_tax_amount_of doc,
               base_total_taxes_and_charges := total_tax_amount_of doc,
               grand_total := flt (net_total doc) + total_tax_amount_of doc,
               base_grand_total := flt (base_total doc) + total_tax_amount_of doc,
               rounding_adjustment :=
                 real_of_int (base_rounded_total_of (flt (base_total doc) + total_tax_amount_of doc))
                 - (flt (base_total doc) + total_tax_amount_of doc),
               rounded_total :=
                 real_of_int (round_half_up (flt (net_total doc) + total_tax_amount_of doc)),
               base_rounded_total :=
                 real_of_int (base_rounded_total_of (flt (base_total doc) + total_tax_amount_of doc)),
               outstanding_amount :=
                 real_of_int (base_rounded_total_of (flt (base_total doc) + total_tax_amount_of doc))\<rparr>"
    by (rule engine_Inr)
  have i: "item_loop (items doc') tally_init = (items doc', tally_of doc)"
    by (simp add: d item_loop_idem tally_of_def)
  have t: "tax_loop dumps (tally_of doc) (taxes doc') = Inr (taxes doc')"
    by (simp add: d cumulative_totals_idem(1)[OF l])
  have c: "cumulative_totals (flt (base_total doc)) (tally_of doc) (taxes doc') = taxes doc'"
    by (simp add: d cumulative_totals_idem(2)[OF l])
  have n: "net_total doc' = net_total doc" "base_total doc' = base_total doc"
    by (simp_all add: d)
  have "apply_tally_tax_calculation dumps doc' =
        Inr (doc'\<lparr>items := items doc', taxes := taxes doc',
                  total_taxes_and_charges := total_tax_amount_of doc,
               base_total_taxes_and_charges := total_tax_amount_of doc,
               grand_total := flt (net_total doc) + total_tax_amount_of doc,
               base_grand_total := flt (base_total doc) + total_tax_amount_of doc,
               rounding_adjustment :=
                 real_of_int (base_rounded_total_of (flt (base_total doc) + total_tax_amount_of doc))
                 - (flt (base_total doc) + total_tax_amount_of doc),
               rounded_total :=
                 real_of_int (round_half_up (flt (net_total doc) + total_tax_amount_of doc)),
               base_rounded_total :=
                 real_of_int (base_rounded_total_of (flt (base_total doc) + total_tax_amount_of doc)),
               outstanding_amount :=
                 real_of_int (base_rounded_total_of (flt (base_total doc) + total_tax_amount_of doc))\<rparr>)"
    unfolding apply_tally_tax_calculation_def i
    by (simp add: t c n total_tax_amount_of_def Let_def)
  also have "\<dots> = Inr doc'" by (simp add: d)
  finally show ?thesis .
qed

theorem engine_idempotent_witness:
  "apply_tally_tax_calculation dumps_keys ex_intra = Inr ex_intra_out \<and>
   apply_tally_tax_calculation dumps_keys ex_intra_out = Inr ex_intra_out"
  using ex_intra_run engine_idempotent[OF ex_intra_run] by simp

text \<open>
  C10. When the invoice has exactly one or exactly two tax rows, every tax row the
  engine leaves has \<open>base_total\<close> equal to \<open>total\<close>.
\<close>

theorem row_base_total_mirrors_total:
  assumes "apply_tally_tax_calculation dumps doc = Inr doc'"
    and "length (taxes doc) = 1 \<or> length (taxes doc) = 2"
  shows "\<forall>tax' \<in> set (taxes doc'). row_base_total tax' = row_total tax'"
proof -
  from assms(1) obtain taxes' where
    l: "tax_loop dumps (tally_of doc) (taxes doc) = Inr taxes'" and
    d: "taxes doc' = cumulative_totals (flt (base_total doc)) (tally_of doc) taxes'"
    by (rule engine_Inr) simp
  have len: "length taxes' = length (taxes doc)" using l by (rule tax_loop_length)
  with assms(2) cumulative_totals_shape[of taxes' "flt (base_total doc)" "tally_of doc"]
  consider a where "taxes' = [a]" | a b where "taxes' = [a, b]" by auto
  then show ?thesis by cases (simp_all add: d set_row_total_def)
qed

theorem row_base_total_mirrors_total_witness:
  "apply_tally_tax_calculation dumps_keys ex_intra = Inr ex_intra_out \<and>
   length (taxes ex_intra) = 2 \<and>
   row_base_total (taxes ex_intra_out ! 0) = row_total (taxes ex_intra_out ! 0) \<and>
   row_base_total (taxes ex_intra_out ! 1) = row_total (taxes ex_intra_out ! 1) \<and>
   apply_tally_tax_calculation dumps_keys ex_inter = Inr ex_inter_out \<and>
   length (taxes ex_inter) = 1 \<and>
   row_base_total (taxes ex_inter_out ! 0) = row_total (taxes ex_inter_out ! 0)"
proof -
  have l: "length (taxes ex_intra) = 2" "length (taxes ex_inter) = 1"
    by (simp_all add: ex_intra_def ex_inter_def invoice_of_def)
  have m: "taxes ex_intra_out ! 0 \<in> set (taxes ex_intra_out)"
          "taxes ex_intra_out ! 1 \<in> set (taxes ex_intra_out)"
          "taxes ex_inter_out ! 0 \<in> set (taxes ex_inter_out)"
    by (simp_all add: ex_intra_out_def ex_inter_out_def invoice_of_def totals_of_def)
  from row_base_total_mirrors_total[OF ex_intra_run] l(1) m(1,2)
  have a: "row_base_total (taxes ex_intra_out ! 0) = row_total (taxes ex_intra_out ! 0)"
          "row_base_total (taxes ex_intra_out ! 1) = row_total (taxes ex_intra_out ! 1)"
    by blast+
  from row_base_total_mirrors_total[OF ex_inter_run] l(2) m(3)
  have b: "row_base_total (taxes ex_inter_out ! 0) = row_total (taxes ex_inter_out ! 0)"
    by blast
  from ex_intra_run ex_inter_run l a b show ?thesis by simp
qed

end
